theory Spec2Isabelle
  imports Complex_Main "HOL-Library.Word"
begin

section \<open>Fury Cutter: OCR method selection, rival patterns, frame classification, label application\<close>

text \<open>
  The repository's Python engine (\<^verbatim>\<open>fury_cutter.py\<close>) is quoted in its documentation:
  the body of \<^verbatim>\<open>_get_ocr_text_at_frame\<close> after the rival-detection fix, and the list
  \<^verbatim>\<open>rival_patterns\<close>. The label-application layer is ExtendScript
  (\<^verbatim>\<open>selectClipAtTime\<close>, \<^verbatim>\<open>exportForPython\<close>, \<^verbatim>\<open>processBattle\<close>).
  Each definition below names the source text it embeds.
\<close>

subsection \<open>Game configuration\<close>

text \<open>
  The \<^verbatim>\<open>Generation\<close> enum: the version summary adds \<^verbatim>\<open>GEN1 = 1\<close> and \<^verbatim>\<open>GEN2 = 2\<close> to
  the generations 3 to 5 (the fix document names \<^verbatim>\<open>GEN3\<close> and \<^verbatim>\<open>GEN4\<close>, and Gen5 as the one
  generation of the other branch). The per-version configuration holds the OCR region, the
  OCR pattern family ("team" or "leader") and the gameplay region.
\<close>

datatype Generation = GEN1 | GEN2 | GEN3 | GEN4 | GEN5

record rect =
  rect_x :: nat
  rect_y :: nat
  rect_width :: nat
  rect_height :: nat

record game_config =
  generation :: Generation
  ocr_region :: rect
  ocr_pattern :: string
  gameplay_region :: rect

text \<open>Crystal and Yellow as the version summary configures them; they share one emulator
  layout and the "team" pattern family.\<close>

definition gameboy_ocr_region :: rect where
  "gameboy_ocr_region = \<lparr>rect_x = 1548, rect_y = 40, rect_width = 355, rect_height = 34\<rparr>"

definition gameboy_gameplay_region :: rect where
  "gameboy_gameplay_region = \<lparr>rect_x = 400, rect_y = 36, rect_width = 1120, rect_height = 1008\<rparr>"

definition crystal :: game_config where
  "crystal = \<lparr>generation = GEN2, ocr_region = gameboy_ocr_region, ocr_pattern = ''team'',
     gameplay_region = gameboy_gameplay_region\<rparr>"

definition yellow :: game_config where
  "yellow = \<lparr>generation = GEN1, ocr_region = gameboy_ocr_region, ocr_pattern = ''team'',
     gameplay_region = gameboy_gameplay_region\<rparr>"

subsection \<open>OCR method selection and percentile preprocessing\<close>

text \<open>
  Pixels are 8-bit; a colour pixel is a (blue, green, red) triple, an image a list of rows.
  The image handed to the recogniser is either the colour crop or a single-channel array.
\<close>

type_synonym uint8 = "8 word"

type_synonym bgr = "uint8 \<times> uint8 \<times> uint8"

datatype image = Colour "bgr list list" | Grey "uint8 list list"

datatype cv_error = EmptyImage

text \<open>
  \<^verbatim>\<open>np.percentile(a, q)\<close> with numpy's default linear interpolation: the flattened
  values are sorted, the virtual index is \<open>(n - 1) * q / 100\<close>, and the result interpolates
  between its two neighbours. numpy computes in double precision; the model computes the
  same expression exactly, over the rationals.
\<close>

definition np_percentile :: "nat list \<Rightarrow> nat \<Rightarrow> rat" where
  "np_percentile a q =
     (let s = sort a;
          n = length s;
          virtual_index = of_nat (n - 1) * of_nat q / (100 :: rat);
          lo = nat \<lfloor>virtual_index\<rfloor>;
          hi = min (lo + 1) (n - 1);
          gamma = virtual_index - of_nat lo
      in of_nat (s ! lo) + (of_nat (s ! hi) - of_nat (s ! lo)) * gamma)"

text \<open>
  \<^verbatim>\<open>cv2.threshold(src, thresh, maxval, cv2.THRESH_BINARY_INV)\<close> on an 8-bit image: OpenCV
  floors the threshold and sets a pixel to 0 when it is greater, to \<open>maxval\<close> otherwise.
\<close>

definition cv2_threshold_binary_inv :: "uint8 list list \<Rightarrow> rat \<Rightarrow> uint8 \<Rightarrow> uint8 list list" where
  "cv2_threshold_binary_inv src thresh maxval =
     (let ithresh = \<lfloor>thresh\<rfloor>
      in map (map (\<lambda>p. if int (unat p) > ithresh then 0 else maxval)) src)"

text \<open>
  \<^verbatim>\<open>_get_ocr_text_at_frame\<close>, the branch on the generation as the fix document quotes it:
  \<^verbatim>\<open>
  generation = self.game_config.generation
  if generation in [Generation.GEN1, Generation.GEN2, Generation.GEN3, Generation.GEN4]:
      gray = cv2.cvtColor(ocr_crop, cv2.COLOR_BGR2GRAY)
      threshold_value = np.percentile(gray, 20)
      _, binary = cv2.threshold(gray, threshold_value, 255, cv2.THRESH_BINARY_INV)
      processed = 255 - binary
      pil_processed = Image.fromarray(processed)
      text = pytesseract.image_to_string(pil_processed, config='--psm 7')
  else:
      text = pytesseract.image_to_string(pil_image, config='--psm 6')
  \<close>
  The two library calls whose results the repository does not fix are parameters:
  \<open>image_to_string\<close> is the recogniser (any result type, so that a theorem can observe the
  call by passing \<open>Pair\<close>), \<open>cvtColor\<close> is OpenCV's per-pixel conversion to intensity.
  \<open>ocr_crop\<close> and \<open>pil_image\<close> are the two variables the quoted branch reads.
  \<^verbatim>\<open>cv2.cvtColor\<close> raises on an image without pixels.
\<close>

definition get_ocr_text_at_frame ::
  "(image \<Rightarrow> string \<Rightarrow> 'r) \<Rightarrow> (bgr \<Rightarrow> uint8) \<Rightarrow> game_config \<Rightarrow> bgr list list \<Rightarrow> image
     \<Rightarrow> cv_error + 'r" where
  "get_ocr_text_at_frame image_to_string cvtColor cfg ocr_crop pil_image =
     (if generation cfg \<in> set [GEN1, GEN2, GEN3, GEN4] then
        (if concat ocr_crop = [] then Inl EmptyImage
         else
           let gray = map (map cvtColor) ocr_crop;
               threshold_value = np_percentile (map unat (concat gray)) 20;
               binary = cv2_threshold_binary_inv gray threshold_value 255;
               processed = map (map (\<lambda>b. 255 - b)) binary
           in Inr (image_to_string (Grey processed) ''--psm 7''))
      else Inr (image_to_string pil_image ''--psm 6''))"

text \<open>A stand-in for the intensity conversion in worked examples: the green channel.\<close>

definition green_channel :: "bgr \<Rightarrow> uint8" where
  "green_channel px = fst (snd px)"

definition sample_crop :: "bgr list list" where
  "sample_crop = [[(0, 10, 0), (0, 200, 0)], [(0, 210, 0), (0, 220, 0)], [(0, 230, 0), (0, 240, 0)]]"

definition graded_crop :: "bgr list list" where
  "graded_crop = [[(0, 50, 0), (0, 10, 0), (0, 90, 0), (0, 30, 0), (0, 70, 0)],
                  [(0, 100, 0), (0, 20, 0), (0, 60, 0), (0, 40, 0), (0, 80, 0)]]"

subsection \<open>Regular expressions of the rival patterns\<close>

text \<open>
  Python strings are sequences of code points; OCR text here is a list of code points.
  The patterns of \<^verbatim>\<open>rival_patterns\<close> are sequences of single-character classes, each taken
  once or under \<^verbatim>\<open>?\<close>, \<^verbatim>\<open>*\<close> or \<^verbatim>\<open>+\<close>, and the assertion \<^verbatim>\<open>\b\<close>; a regular expression is
  modelled as such a sequence. The classes \<^verbatim>\<open>\s\<close>, \<^verbatim>\<open>\d\<close> and \<^verbatim>\<open>\w\<close> decide the ASCII code
  points as Python's \<^verbatim>\<open>re\<close> does on a \<^verbatim>\<open>str\<close> (whitespace: space, tab to carriage return,
  and the separators 28 to 31); Python also puts non-ASCII whitespace, digits and letters
  into them, which the model leaves out, so general statements are made for ASCII text
  (with the curly apostrophe U+2019).
\<close>

type_synonym codepoint = nat

type_synonym utext = "codepoint list"

definition ustr :: "string \<Rightarrow> utext" where
  "ustr s = map of_char s"

datatype charset = Chr codepoint | AnyOf "codepoint list" | Whitespace | Digit

datatype item = One charset | Opt charset | Star charset | Plus charset | WordBoundary

type_synonym regex = "item list"

definition is_space :: "codepoint \<Rightarrow> bool" where
  "is_space c = (c \<in> set [32, 9, 10, 11, 12, 13, 28, 29, 30, 31])"

definition is_digit :: "codepoint \<Rightarrow> bool" where
  "is_digit c = (48 \<le> c \<and> c \<le> 57)"

definition is_word_char :: "codepoint \<Rightarrow> bool" where
  "is_word_char c = ((97 \<le> c \<and> c \<le> 122) \<or> (65 \<le> c \<and> c \<le> 90) \<or> is_digit c \<or> c = 95)"

definition latin :: "codepoint \<Rightarrow> bool" where
  "latin c = (c < 128 \<or> c = 8217)"

fun accepts :: "charset \<Rightarrow> codepoint \<Rightarrow> bool" where
  "accepts (Chr a) c = (c = a)"
| "accepts (AnyOf as) c = (c \<in> set as)"
| "accepts Whitespace c = is_space c"
| "accepts Digit c = is_digit c"

text \<open>
  \<^verbatim>\<open>\b\<close> holds between a word character and a non-word character or an end of the text;
  \<open>prev\<close> is the code point before the position (\<open>None\<close> at the start).
\<close>

definition at_word_boundary :: "codepoint option \<Rightarrow> utext \<Rightarrow> bool" where
  "at_word_boundary prev rest =
     ((case prev of None \<Rightarrow> False | Some c \<Rightarrow> is_word_char c)
      \<noteq> (case rest of [] \<Rightarrow> False | c # _ \<Rightarrow> is_word_char c))"

text \<open>Whether the expression matches a prefix of \<open>rest\<close> (with backtracking).\<close>

fun match_here :: "regex \<Rightarrow> codepoint option \<Rightarrow> utext \<Rightarrow> bool" where
  "match_here [] prev rest = True"
| "match_here (WordBoundary # r) prev rest = (at_word_boundary prev rest \<and> match_here r prev rest)"
| "match_here (One cs # r) prev [] = False"
| "match_here (One cs # r) prev (c # rest) = (accepts cs c \<and> match_here r (Some c) rest)"
| "match_here (Opt cs # r) prev [] = match_here r prev []"
| "match_here (Opt cs # r) prev (c # rest) =
     ((accepts cs c \<and> match_here r (Some c) rest) \<or> match_here r prev (c # rest))"
| "match_here (Star cs # r) prev [] = match_here r prev []"
| "match_here (Star cs # r) prev (c # rest) =
     ((accepts cs c \<and> match_here (Star cs # r) (Some c) rest) \<or> match_here r prev (c # rest))"
| "match_here (Plus cs # r) prev [] = False"
| "match_here (Plus cs # r) prev (c # rest) =
     (accepts cs c \<and> match_here (Star cs # r) (Some c) rest)"

text \<open>
  \<^verbatim>\<open>re.search\<close>: the leftmost position where the expression matches; the result is the
  text from that position on (what the match object's start tells), \<open>None\<close> without a match.
\<close>

fun search_from :: "regex \<Rightarrow> codepoint option \<Rightarrow> utext \<Rightarrow> utext option" where
  "search_from r prev [] = (if match_here r prev [] then Some [] else None)"
| "search_from r prev (c # rest) =
     (if match_here r prev (c # rest) then Some (c # rest) else search_from r (Some c) rest)"

definition re_search :: "regex \<Rightarrow> utext \<Rightarrow> utext option" where
  "re_search r s = search_from r None s"

definition lit :: "string \<Rightarrow> regex" where
  "lit s = map (\<lambda>c. One (Chr (of_char c))) s"

text \<open>The class \<^verbatim>\<open>['\u2019]\<close>: the straight and the curly apostrophe.\<close>

definition apostrophe :: charset where
  "apostrophe = AnyOf [39, 8217]"

text \<open>
  The list as the version summary gives it:
  \<^verbatim>\<open>
  rival_patterns = [
      r"\brival\s*\d+['\u2019]?s\s+team",  # "rival 2's team", "rival2's team"
      r"\brival['\u2019]?s\s+team",         # "rival's team"
      r"\brivalt['\u2019]?s\s+team",        # OCR error: "rivalt's team"
  ]
  \<close>
\<close>

definition rival_patterns :: "regex list" where
  "rival_patterns =
     [ WordBoundary # lit ''rival'' @ [Star Whitespace, Plus Digit, Opt apostrophe] @ lit ''s''
         @ [Plus Whitespace] @ lit ''team'',
       WordBoundary # lit ''rival'' @ [Opt apostrophe] @ lit ''s'' @ [Plus Whitespace] @ lit ''team'',
       WordBoundary # lit ''rivalt'' @ [Opt apostrophe] @ lit ''s'' @ [Plus Whitespace] @ lit ''team'' ]"

subsection \<open>TrainerMatcher\<close>

text \<open>
  The function that applies \<^verbatim>\<open>rival_patterns\<close> and names the trainer is not among the
  repository's files here; only the pattern list is. The definitions of this subsection
  are modelled from the specification of TrainerMatcher
  (\<^verbatim>\<open>match(normalized_text, pattern_set) -> TrainerIdentity | None\<close>).
\<close>

text \<open>Modelled from the spec: the matched trainer identity (the matcher's result type is
  missing); the Rival family with the number of a numbered rival, or a named trainer.\<close>

datatype TrainerIdentity = Rival "nat option" | Trainer string

text \<open>Modelled from the spec: the tagged variants of a matcher rule (the rule table's type is
  missing): exact name, numbered rival, bare rival, misread rival.\<close>

datatype rule_kind = exact_name string | numbered_rival | bare_rival | misread_rival

text \<open>Modelled from the spec: a pattern set is an ordered list of rules (missing: how the
  repository pairs a pattern with its trainer).\<close>

type_synonym pattern_set = "(regex \<times> rule_kind) list"

text \<open>Modelled from the spec: "lower-cases" (the normalisation code is missing); ASCII letters.\<close>

definition to_lower :: "codepoint \<Rightarrow> codepoint" where
  "to_lower c = (if 65 \<le> c \<and> c \<le> 90 then c + 32 else c)"

text \<open>Modelled from the spec: "maps curly apostrophe (U+2019) to straight apostrophe" (the
  normalisation code is missing).\<close>

definition straighten :: "codepoint \<Rightarrow> codepoint" where
  "straighten c = (if c = 8217 then 39 else c)"

text \<open>Modelled from the spec: "collapses whitespace" (the normalisation code is missing); every
  run of whitespace becomes one space.\<close>

function collapse_whitespace :: "utext \<Rightarrow> utext" where
  "collapse_whitespace [] = []"
| "collapse_whitespace (c # cs) =
     (if is_space c then 32 # collapse_whitespace (dropWhile is_space cs)
      else c # collapse_whitespace cs)"
  by pat_completeness auto
termination
  by (relation "measure length") (auto simp: length_dropWhile_le less_Suc_eq_le)

text \<open>Modelled from the spec: the matcher's normalisation (its code is missing): lower-case,
  collapse whitespace, straighten the apostrophe.\<close>

definition normalize_text :: "utext \<Rightarrow> utext" where
  "normalize_text t = collapse_whitespace (map (\<lambda>c. straighten (to_lower c)) t)"

text \<open>Modelled from the spec: the value of a run of decimal digits (missing: how the repository
  reads a rival's number).\<close>

definition decimal :: "utext \<Rightarrow> nat" where
  "decimal ds = foldl (\<lambda>n c. 10 * n + (c - 48)) 0 ds"

text \<open>Modelled from the spec: "numbered variants must resolve to the correct numbered rival"
  (missing: how the repository reads a rival's number): the digits after \<^verbatim>\<open>rival\<close> and
  optional whitespace, in the text from the match on.\<close>

definition rival_number :: "utext \<Rightarrow> nat" where
  "rival_number m = decimal (takeWhile is_digit (dropWhile is_space (drop 5 m)))"

text \<open>Modelled from the spec: the identity a rule produces (missing: the code that names the
  trainer once a pattern has matched).\<close>

fun identity_of :: "rule_kind \<Rightarrow> utext \<Rightarrow> TrainerIdentity" where
  "identity_of (exact_name n) m = Trainer n"
| "identity_of numbered_rival m = Rival (Some (rival_number m))"
| "identity_of bare_rival m = Rival None"
| "identity_of misread_rival m = Rival None"

text \<open>Modelled from the spec: "Tests, in a fixed priority order ... First matching pattern
  wins", and no match is the value \<open>None\<close> (the matching loop is missing).\<close>

fun first_match :: "utext \<Rightarrow> pattern_set \<Rightarrow> TrainerIdentity option" where
  "first_match t [] = None"
| "first_match t ((r, k) # rules) =
     (case re_search r t of Some m \<Rightarrow> Some (identity_of k m) | None \<Rightarrow> first_match t rules)"

text \<open>Modelled from the spec: \<^verbatim>\<open>TrainerMatcher.match\<close> (its code is missing): normalise, then
  the first rule that matches.\<close>

definition TrainerMatcher_match :: "utext \<Rightarrow> pattern_set \<Rightarrow> TrainerIdentity option" where
  "TrainerMatcher_match t pattern_set = first_match (normalize_text t) pattern_set"

text \<open>Modelled from the spec: the rival rules in the spec's priority order (numbered, bare,
  misread), which is the order of the repository's \<^verbatim>\<open>rival_patterns\<close>; the patterns
  themselves are the repository's.\<close>

definition rival_rules :: pattern_set where
  "rival_rules = zip rival_patterns [numbered_rival, bare_rival, misread_rival]"

text \<open>The decimal digits of a number, for stating the numbered variants in general.\<close>

fun digits_of :: "nat \<Rightarrow> utext" where
  "digits_of n = (if n < 10 then [48 + n] else digits_of (n div 10) @ [48 + n mod 10])"

declare digits_of.simps [simp del]

subsection \<open>TransitionFrameScanner\<close>

text \<open>
  The scanner's code is not among the repository's files here; the version summary only
  reports its two thresholds and four measured means. The definitions of this subsection are
  modelled from the specification of \<^verbatim>\<open>classify(frame, gameplay_crop_rect)\<close>.
\<close>

text \<open>Modelled from the spec: the scanner's result \<^verbatim>\<open>{black, white, neither}\<close> (its type is
  missing).\<close>

datatype frame_class = black | white | neither

text \<open>Modelled from the spec: a frame's pixel buffer (the frame type is missing), as rows of
  8-bit intensities.\<close>

type_synonym frame = "uint8 list list"

text \<open>Modelled from the spec: "Crops to gameplay_crop_rect" (the cropping code is missing).\<close>

definition crop :: "frame \<Rightarrow> rect \<Rightarrow> frame" where
  "crop f r = map (\<lambda>row. take (rect_width r) (drop (rect_x r) row))
                  (take (rect_height r) (drop (rect_y r) f))"

text \<open>Modelled from the spec: "Computes mean pixel intensity over the crop" (the code is
  missing); the mean is exact, and a crop without pixels has none.\<close>

definition mean_intensity :: "frame \<Rightarrow> rat option" where
  "mean_intensity f =
     (let px = concat f
      in if px = [] then None else Some (of_nat (sum_list (map unat px)) / of_nat (length px)))"

text \<open>Modelled from the spec: "mean \<open>\<le>\<close> 5: black; mean \<open>\<ge>\<close> 250: white; otherwise neither" (the
  code is missing; the version summary reports the same two thresholds).\<close>

definition classify_mean :: "rat \<Rightarrow> frame_class" where
  "classify_mean m = (if m \<le> 5 then black else if m \<ge> 250 then white else neither)"

text \<open>Modelled from the spec: \<^verbatim>\<open>TransitionFrameScanner.classify\<close> (its code is missing): the
  class of the mean over the crop; no class when the crop has no pixel, which the
  specification leaves open.\<close>

definition classify :: "frame \<Rightarrow> rect \<Rightarrow> frame_class option" where
  "classify f r = map_option classify_mean (mean_intensity (crop f r))"

text \<open>A frame of one intensity, for worked examples.\<close>

definition uniform_frame :: "nat \<Rightarrow> nat \<Rightarrow> uint8 \<Rightarrow> frame" where
  "uniform_frame w h v = replicate h (replicate w v)"
subsection \<open>Label application (ExtendScript)\<close>

text \<open>
  ExtendScript numbers are IEEE 754 binary64 values. A finite one is the rational it
  denotes; the two zeros are not told apart (no operation below reads the sign of a zero).
\<close>

datatype jsnum = Num rat | PosInf | NegInf | NaN

text \<open>The number of binary digits of a positive integer.\<close>

function bit_length :: "int \<Rightarrow> int" where
  "bit_length i = (if i \<le> 0 then 0 else 1 + bit_length (i div 2))"
  by auto

termination
  by (relation "measure nat") auto

declare bit_length.simps [simp del]

definition pow2 :: "int \<Rightarrow> rat" where
  "pow2 e = (if 0 \<le> e then 2 ^ nat e else 1 / 2 ^ nat (- e))"

text \<open>The exponent \<open>e\<close> with \<open>2\<^sup>e \<le> \<bar>x\<bar> < 2\<^sup>e\<^sup>+\<^sup>1\<close>, for \<open>x \<noteq> 0\<close>.\<close>

definition binary_exponent :: "rat \<Rightarrow> int" where
  "binary_exponent x =
     (let (p, q) = quotient_of \<bar>x\<bar>;
          d = bit_length p - bit_length q
      in if pow2 d \<le> \<bar>x\<bar> then d else d - 1)"

definition round_half_even :: "rat \<Rightarrow> int" where
  "round_half_even r =
     (let f = \<lfloor>r\<rfloor>; d = r - of_int f
      in if d < 1 / 2 then f else if 1 / 2 < d then f + 1 else if even f then f else f + 1)"

text \<open>
  Rounding of an exact result to binary64, to nearest with ties to even: 53 significant
  bits at the exponent of the value, the exponent of the subnormals (\<open>-1022\<close>) when the value
  is smaller; a result that rounds to \<open>2\<^sup>1\<^sup>0\<^sup>2\<^sup>4\<close> or beyond is an infinity.
\<close>

definition round_double :: "rat \<Rightarrow> jsnum" where
  "round_double x =
     (if x = 0 then Num 0
      else let e = max (binary_exponent x) (- 1022);
               quantum = pow2 (e - 52);
               m = round_half_even (x / quantum)
           in if 1023 < e \<or> (e = 1023 \<and> 2 ^ 53 \<le> \<bar>m\<bar>)
              then (if 0 < x then PosInf else NegInf)
              else Num (of_int m * quantum))"

text \<open>The operators \<^verbatim>\<open>+\<close> and \<^verbatim>\<open>*\<close> on numbers.\<close>

fun js_add :: "jsnum \<Rightarrow> jsnum \<Rightarrow> jsnum" where
  "js_add (Num x) (Num y) = round_double (x + y)"
| "js_add NaN b = NaN"
| "js_add a NaN = NaN"
| "js_add PosInf NegInf = NaN"
| "js_add NegInf PosInf = NaN"
| "js_add PosInf b = PosInf"
| "js_add a PosInf = PosInf"
| "js_add NegInf b = NegInf"
| "js_add a NegInf = NegInf"


text \<open>
  The comparison of two numbers that \<^verbatim>\<open><\<close>, \<^verbatim>\<open>>\<close>, \<^verbatim>\<open><=\<close> and \<^verbatim>\<open>>=\<close> are built on: \<open>None\<close> is
  the answer "undefined" when an operand is NaN. \<^verbatim>\<open>a <= b\<close> holds when \<^verbatim>\<open>b < a\<close> is false,
  \<^verbatim>\<open>a > b\<close> when \<^verbatim>\<open>b < a\<close> is true.
\<close>

fun js_less :: "jsnum \<Rightarrow> jsnum \<Rightarrow> bool option" where
  "js_less NaN b = None"
| "js_less a NaN = None"
| "js_less (Num x) (Num y) = Some (x < y)"
| "js_less PosInf b = Some False"
| "js_less NegInf NegInf = Some False"
| "js_less a PosInf = Some True"
| "js_less a NegInf = Some False"
| "js_less NegInf b = Some True"

definition js_le :: "jsnum \<Rightarrow> jsnum \<Rightarrow> bool" where
  "js_le a b = (js_less b a = Some False)"

definition js_gt :: "jsnum \<Rightarrow> jsnum \<Rightarrow> bool" where
  "js_gt a b = (js_less b a = Some True)"

text \<open>
  The host's sequence as the scripts read it: video and audio tracks of clips, each clip
  with its name, its start and end in ticks and its selection flag, and the playhead. The
  tick fields hold the number that \<^verbatim>\<open>clip.start.ticks\<close> and \<^verbatim>\<open>clip.end.ticks\<close> stand for in
  a comparison with a number; the playhead holds the number whose text
  \<^verbatim>\<open>setPlayerPosition\<close> is given. \<^verbatim>\<open>clip.setSelected(isSelected, updateUI)\<close> is a host call
  that may raise; \<open>throws\<close> says for which clips and arguments. The other host calls
  (\<^verbatim>\<open>setPlayerPosition\<close>, reading tracks and clips) are taken to succeed.
\<close>

record clip =
  clip_name :: string
  start_ticks :: jsnum
  end_ticks :: jsnum
  selected :: bool



text \<open>\<^verbatim>\<open>var OFFSET_SECONDS = 0.5;\<close> and \<^verbatim>\<open>function secondsToTicks(s) { return s * 254016000000; }\<close>\<close>

definition OFFSET_SECONDS :: jsnum where
  "OFFSET_SECONDS = Num (1 / 2)"






text \<open>The test both scripts apply: \<^verbatim>\<open>clip.start.ticks <= ticks && clip.end.ticks > ticks\<close>.\<close>

definition covers :: "clip \<Rightarrow> jsnum \<Rightarrow> bool" where
  "covers c ticks = (js_le (start_ticks c) ticks \<and> js_gt (end_ticks c) ticks)"





text \<open>
  The label entries the applicator reads (a number and two strings), and the entries it
  exports for the Python helper. A value read from the table \<^verbatim>\<open>LABEL_SHORTCUTS\<close> is one of
  its own strings or, for a name the table does not have, what the object inherits under
  that name from the host's \<^verbatim>\<open>Object.prototype\<close> (\<open>Member\<close>, a function or object of the
  host).
\<close>

record label_entry =
  start_seconds :: jsnum
  label :: string
  trainer :: string

datatype js_property = Text string | Member string

record exported_clip =
  exported_start_seconds :: jsnum
  exported_label :: string
  exported_trainer :: string
  exported_shortcut :: js_property

definition LABEL_SHORTCUTS :: "(string \<times> string) list" where
  "LABEL_SHORTCUTS =
     [(''Rival'', ''^+1''), (''Gym'', ''^+2''), (''E4'', ''^+3''), (''Champion'', ''^+4''),
      (''Postgame'', ''^+5''), (''Enemy Leader'', ''^+6''), (''Enemy Boss'', ''^+7''),
      (''Cerulean'', ''^+8''), (''Caribbean'', ''^+9''), (''Lavender'', ''^+0''),
      (''Magenta'', ''^+{F1}''), (''Purple'', ''^+{F2}''), (''Blue'', ''^+{F3}''),
      (''Green'', ''^+{F4}''), (''Yellow'', ''^+{F5}''), (''Brown'', ''^+{F6}'')]"

text \<open>
  The array \<^verbatim>\<open>pyData.clips\<close> that \<^verbatim>\<open>exportForPython\<close> builds and then writes out as JSON:
  \<^verbatim>\<open>
  pyData.clips.push({
      start_seconds: entry.start_seconds + OFFSET_SECONDS,
      label: entry.label,
      trainer: entry.trainer,
      shortcut: LABEL_SHORTCUTS[entry.label] || "^+8" // Default to Cerulean
  });
  \<close>
  \<open>inherited name\<close> says whether the host's \<^verbatim>\<open>Object.prototype\<close> has a property \<open>name\<close>
  with a value that counts as true. An own string counts as true unless it is empty.
\<close>

definition exportForPython :: "(string \<Rightarrow> bool) \<Rightarrow> label_entry list \<Rightarrow> exported_clip list" where
  "exportForPython inherited labels =
     map (\<lambda>entry. \<lparr>exported_start_seconds = js_add (start_seconds entry) OFFSET_SECONDS,
                    exported_label = label entry,
                    exported_trainer = trainer entry,
                    exported_shortcut =
                      (case map_of LABEL_SHORTCUTS (label entry) of
                         Some s \<Rightarrow> if s = [] then Text ''^+8'' else Text s
                       | None \<Rightarrow> if inherited (label entry) then Member (label entry)
                                 else Text ''^+8'')\<rparr>) labels"






definition clip_a :: clip where
  "clip_a = \<lparr>clip_name = ''A'', start_ticks = Num 0, end_ticks = Num 260366400000, selected = False\<rparr>"

definition clip_b :: clip where
  "clip_b = \<lparr>clip_name = ''B'', start_ticks = Num 260366400000, end_ticks = Num 520732800000,
             selected = False\<rparr>"





section \<open>Properties\<close>

subsection \<open>Percentile preprocessing\<close>

lemma floor_index: "nat \<lfloor>of_nat m * of_nat (20::nat) / (100 :: rat)\<rfloor> = m div 5"
proof -
  have "of_nat m * of_nat (20::nat) / (100 :: rat) = of_nat m / of_nat 5"
    by simp
  then have "\<lfloor>of_nat m * of_nat (20::nat) / (100 :: rat)\<rfloor> = \<lfloor>(of_nat m :: rat) / of_nat 5\<rfloor>"
    by simp
  also have "\<dots> = of_nat (m div 5)"
    by (rule floor_divide_of_nat_eq)
  finally show ?thesis by simp
qed

lemma threshold_cmp: "(int n > \<lfloor>t :: rat\<rfloor>) = (of_nat n > t)"
proof -
  have "(\<lfloor>t\<rfloor> < int n) = (t < of_int (int n))"
    by (rule floor_less_iff)
  then show ?thesis by simp
qed

lemma percentile_lower:
  assumes "a \<noteq> []"
  shows "of_nat (sort a ! ((length a - 1) div 5)) \<le> np_percentile a 20"
proof -
  let ?s = "sort a"
  let ?n = "length a"
  let ?k = "(?n - 1) div 5"
  let ?hi = "min (?k + 1) (?n - 1)"
  have k: "nat \<lfloor>of_nat (?n - 1) * of_nat (20::nat) / (100 :: rat)\<rfloor> = ?k"
    by (rule floor_index)
  have "?k \<le> ?hi" by simp
  moreover have "?hi < length ?s" using assms by (cases a) auto
  ultimately have "?s ! ?k \<le> ?s ! ?hi"
    by (intro sorted_nth_mono) auto
  then have d: "(0::rat) \<le> of_nat (?s ! ?hi) - of_nat (?s ! ?k)" by simp
  have "(of_nat ?k :: rat) \<le> of_nat (?n - 1) / 5"
  proof -
    have "?k * 5 \<le> ?n - 1" by simp
    then have "(of_nat (?k * 5) :: rat) \<le> of_nat (?n - 1)" by (simp only: of_nat_le_iff)
    then show ?thesis by simp
  qed
  then have g: "(0::rat) \<le> of_nat (?n - 1) * of_nat (20::nat) / 100 - of_nat ?k" by simp
  have "np_percentile a 20 = of_nat (?s ! ?k) + (of_nat (?s ! ?hi) - of_nat (?s ! ?k)) * (of_nat (?n - 1) * of_nat (20::nat) / 100 - of_nat ?k)"
    unfolding np_percentile_def Let_def length_sort k ..
  moreover have "0 \<le> (of_nat (?s ! ?hi) - of_nat (?s ! ?k)) * (of_nat (?n - 1) * of_nat (20::nat) / (100::rat) - of_nat ?k)"
    using d g by (rule mult_nonneg_nonneg)
  ultimately show ?thesis by linarith
qed


lemma processed_pixel:
  "(255::uint8) - (if int (unat p) > \<lfloor>t :: rat\<rfloor> then 0 else 255)
     = (if of_nat (unat p) \<le> t then 0 else 255)"
proof (cases "of_nat (unat p) \<le> t")
  case True
  then have "\<not> int (unat p) > \<lfloor>t\<rfloor>" unfolding threshold_cmp by simp
  then show ?thesis using True by (simp only: if_False if_True) simp
next
  case False
  then have "int (unat p) > \<lfloor>t\<rfloor>" unfolding threshold_cmp by simp
  then show ?thesis using False by (simp only: if_False if_True) simp
qed

lemma processed_image:
  "map (map (\<lambda>b. (255::uint8) - b)) (cv2_threshold_binary_inv (map (map cvtColor) img) t 255)
     = map (map (\<lambda>px. if of_nat (unat (cvtColor px)) \<le> t then 0 else 255)) img"
  unfolding cv2_threshold_binary_inv_def Let_def map_map o_def processed_pixel ..

lemma percentile_branch:
  assumes "generation cfg \<noteq> GEN5" and "concat ocr_crop \<noteq> []"
  shows "get_ocr_text_at_frame image_to_string cvtColor cfg ocr_crop pil_image =
     Inr (image_to_string
       (Grey (map (map (\<lambda>px. if of_nat (unat (cvtColor px))
            \<le> np_percentile (map (unat \<circ> cvtColor) (concat ocr_crop)) 20 then 0 else 255)) ocr_crop))
       ''--psm 7'')"
proof -
  have g: "generation cfg \<in> set [GEN1, GEN2, GEN3, GEN4]"
    using assms(1) by (cases "generation cfg") simp_all
  have c: "map unat (concat (map (map cvtColor) ocr_crop)) = map (unat \<circ> cvtColor) (concat ocr_crop)"
    by (simp add: map_concat)
  show ?thesis
    unfolding get_ocr_text_at_frame_def Let_def processed_image c
    using g assms(2) by simp
qed

lemma raw_branch:
  assumes "generation cfg = GEN5"
  shows "get_ocr_text_at_frame image_to_string cvtColor cfg ocr_crop pil_image =
     Inr (image_to_string pil_image ''--psm 6'')"
  using assms by (simp add: get_ocr_text_at_frame_def)

lemma empty_branch:
  assumes "generation cfg \<noteq> GEN5" and "concat ocr_crop = []"
  shows "get_ocr_text_at_frame image_to_string cvtColor cfg ocr_crop pil_image = Inl EmptyImage"
proof -
  have "generation cfg \<in> set [GEN1, GEN2, GEN3, GEN4]"
    using assms(1) by (cases "generation cfg") simp_all
  then show ?thesis using assms(2) by (simp add: get_ocr_text_at_frame_def)
qed

lemma same_branch:
  assumes "(generation cfg = GEN5) = (generation cfg' = GEN5)"
  shows "get_ocr_text_at_frame image_to_string cvtColor cfg ocr_crop pil_image
       = get_ocr_text_at_frame image_to_string cvtColor cfg' ocr_crop pil_image"
proof (cases "generation cfg = GEN5")
  case True
  then show ?thesis using assms by (simp add: raw_branch)
next
  case False
  then have other: "generation cfg' \<noteq> GEN5" using assms by simp
  show ?thesis
  proof (cases "concat ocr_crop = []")
    case True
    then show ?thesis using False other by (simp add: empty_branch)
  next
    case nonempty: False
    then show ?thesis using False other by (simp add: percentile_branch)
  qed
qed

lemma sample_percentile: "np_percentile (map (unat \<circ> green_channel) (concat sample_crop)) 20 = 200"
  by (simp add: np_percentile_def sample_crop_def green_channel_def)

lemma sample_processed:
  "map (map (\<lambda>px. if of_nat (unat (green_channel px))
        \<le> np_percentile (map (unat \<circ> green_channel) (concat sample_crop)) 20 then 0 else 255)) sample_crop
     = [[0, 0], [255, 255], [255 :: uint8, 255]]"
  unfolding sample_percentile by (simp add: sample_crop_def green_channel_def)

text \<open>
  The order statistic of rank \<open>(n - 1) div 5\<close>: at least a fifth of the values are at or below
  it, fewer than a fifth are strictly below it, and it is the only number with both
  properties. Thresholding at numpy's interpolated percentile and at this value select the
  same values, because no value lies strictly between two neighbours of the sorted list.
\<close>

lemma rank_index: "a \<noteq> [] \<Longrightarrow> (length a - 1) div 5 < length (sort a)"
proof -
  assume "a \<noteq> []"
  then have "0 < length a" by simp
  moreover have "(length a - 1) div 5 \<le> length a - 1" by (rule div_le_dividend)
  ultimately show ?thesis unfolding length_sort by linarith
qed

lemma rank_member:
  assumes "a \<noteq> []"
  shows "sort a ! ((length a - 1) div 5) \<in> set a"
proof -
  have "sort a ! ((length a - 1) div 5) \<in> set (sort a)"
    using rank_index[OF assms] by (rule nth_mem)
  then show ?thesis by simp
qed

lemma count_at_or_below:
  assumes "a \<noteq> []"
  shows "length a \<le> 5 * length (filter (\<lambda>x. x \<le> sort a ! ((length a - 1) div 5)) a)"
proof -
  let ?s = "sort a"
  let ?k = "(length a - 1) div 5"
  let ?P = "\<lambda>x. x \<le> ?s ! ?k"
  have kn: "?k < length ?s" using assms by (rule rank_index)
  have all: "\<forall>x \<in> set (take (?k + 1) ?s). ?P x"
  proof
    fix x assume "x \<in> set (take (?k + 1) ?s)"
    then obtain i where i: "i < ?k + 1" "x = ?s ! i"
      using kn by (auto simp: in_set_conv_nth)
    show "?P x" unfolding i(2) using i(1) kn by (intro sorted_nth_mono) auto
  qed
  have "?k + 1 = length (filter ?P (take (?k + 1) ?s))"
    using all kn by (simp add: filter_id_conv[THEN iffD2])
  also have "\<dots> \<le> length (filter ?P (take (?k + 1) ?s)) + length (filter ?P (drop (?k + 1) ?s))"
    by simp
  also have "\<dots> = length (filter ?P (take (?k + 1) ?s @ drop (?k + 1) ?s))"
    by (simp only: filter_append length_append)
  also have "\<dots> = length (filter ?P ?s)" by simp
  also have "\<dots> = length (filter ?P a)" by (simp add: filter_sort)
  finally have "?k + 1 \<le> length (filter ?P a)" .
  moreover have "length a \<le> 5 * (?k + 1)" by simp
  ultimately show ?thesis by linarith
qed

lemma count_strictly_below:
  assumes "a \<noteq> []"
  shows "5 * length (filter (\<lambda>x. x < sort a ! ((length a - 1) div 5)) a) < length a"
proof -
  let ?s = "sort a"
  let ?k = "(length a - 1) div 5"
  let ?P = "\<lambda>x. x < ?s ! ?k"
  have kn: "?k < length ?s" using assms by (rule rank_index)
  have none: "filter ?P (drop ?k ?s) = []"
  proof -
    have "\<forall>x \<in> set (drop ?k ?s). \<not> ?P x"
    proof
      fix x assume "x \<in> set (drop ?k ?s)"
      then obtain i where i: "i < length ?s - ?k" "x = ?s ! (?k + i)"
        by (auto simp: in_set_conv_nth)
      have "?s ! ?k \<le> ?s ! (?k + i)"
        using i(1) by (intro sorted_nth_mono) auto
      then show "\<not> ?P x" unfolding i(2) by simp
    qed
    then show ?thesis by (simp add: filter_empty_conv)
  qed
  have "length (filter ?P a) = length (filter ?P ?s)" by (simp add: filter_sort)
  also have "\<dots> = length (filter ?P (take ?k ?s @ drop ?k ?s))" by simp
  also have "\<dots> = length (filter ?P (take ?k ?s))"
    unfolding filter_append none by simp
  also have "\<dots> \<le> length (take ?k ?s)" by (rule length_filter_le)
  also have "\<dots> \<le> ?k" by simp
  finally have "length (filter ?P a) \<le> ?k" .
  moreover have "5 * ?k \<le> length a - 1" by simp
  moreover have "0 < length a" using assms by simp
  ultimately show ?thesis by linarith
qed

lemma rank_unique:
  fixes v w :: nat
  assumes "length a \<le> 5 * length (filter (\<lambda>x. x \<le> v) a)"
    and "5 * length (filter (\<lambda>x. x < v) a) < length a"
    and "length a \<le> 5 * length (filter (\<lambda>x. x \<le> w) a)"
    and "5 * length (filter (\<lambda>x. x < w) a) < length a"
  shows "w = v"
proof (rule ccontr)
  assume "w \<noteq> v"
  then consider "w < v" | "v < w" by linarith
  then show False
  proof cases
    case 1
    have "length (filter (\<lambda>x. x \<le> w) a) \<le> length (filter (\<lambda>x. x < v) a)"
    proof -
      have "filter (\<lambda>x. x \<le> w) a = filter (\<lambda>x. x \<le> w) (filter (\<lambda>x. x < v) a)"
        using 1 by (auto intro: filter_cong)
      then show ?thesis by (metis length_filter_le)
    qed
    with assms(2,3) show False by linarith
  next
    case 2
    have "length (filter (\<lambda>x. x \<le> v) a) \<le> length (filter (\<lambda>x. x < w) a)"
    proof -
      have "filter (\<lambda>x. x \<le> v) a = filter (\<lambda>x. x \<le> v) (filter (\<lambda>x. x < w) a)"
        using 2 by (auto intro: filter_cong)
      then show ?thesis by (metis length_filter_le)
    qed
    with assms(1,4) show False by linarith
  qed
qed

lemma percentile_value:
  "np_percentile a 20 =
     of_nat (sort a ! ((length a - 1) div 5))
       + (of_nat (sort a ! min ((length a - 1) div 5 + 1) (length a - 1))
            - of_nat (sort a ! ((length a - 1) div 5))) * (of_nat ((length a - 1) mod 5) / 5)"
proof -
  have k: "nat \<lfloor>of_nat (length a - 1) * of_nat (20::nat) / (100 :: rat)\<rfloor> = (length a - 1) div 5"
    by (rule floor_index)
  have "(of_nat (length a - 1) :: rat) = of_nat ((length a - 1) div 5 * 5 + (length a - 1) mod 5)"
    by simp
  also have "\<dots> = of_nat ((length a - 1) div 5) * 5 + of_nat ((length a - 1) mod 5)"
    by (simp only: of_nat_add of_nat_mult of_nat_numeral)
  finally have eq: "(of_nat (length a - 1) :: rat)
      = of_nat ((length a - 1) div 5) * 5 + of_nat ((length a - 1) mod 5)" .
  have "(of_nat (length a - 1) :: rat) * of_nat (20::nat) / 100 - of_nat ((length a - 1) div 5)
      = of_nat ((length a - 1) mod 5) / 5"
    unfolding eq by (simp add: field_simps)
  then show ?thesis
    unfolding np_percentile_def Let_def length_sort k by simp
qed

lemma threshold_selects_rank:
  assumes "a \<noteq> []" and "x \<in> set a"
  shows "((of_nat x :: rat) \<le> np_percentile a 20) = (x \<le> sort a ! ((length a - 1) div 5))"
proof
  assume "x \<le> sort a ! ((length a - 1) div 5)"
  then have "(of_nat x :: rat) \<le> of_nat (sort a ! ((length a - 1) div 5))" by simp
  also have "\<dots> \<le> np_percentile a 20" using assms(1) by (rule percentile_lower)
  finally show "(of_nat x :: rat) \<le> np_percentile a 20" .
next
  let ?s = "sort a"
  let ?n = "length a"
  let ?k = "(?n - 1) div 5"
  let ?hi = "min (?k + 1) (?n - 1)"
  assume le: "(of_nat x :: rat) \<le> np_percentile a 20"
  show "x \<le> ?s ! ?k"
  proof (rule ccontr)
    assume "\<not> x \<le> ?s ! ?k"
    then have gt: "?s ! ?k < x" by simp
    from assms(2) have "x \<in> set ?s" by simp
    then obtain i where i: "i < length ?s" "x = ?s ! i" by (metis in_set_conv_nth)
    have "\<not> i \<le> ?k"
    proof
      assume "i \<le> ?k"
      then have "?s ! i \<le> ?s ! ?k" using rank_index[OF assms(1)] by (intro sorted_nth_mono) auto
      with gt i(2) show False by simp
    qed
    then have ik: "?k + 1 \<le> i" by simp
    with i(1) have hi: "?hi = ?k + 1" by simp
    have "?s ! (?k + 1) \<le> ?s ! i" using ik i(1) by (intro sorted_nth_mono) auto
    then have xhi: "?s ! ?hi \<le> x" using hi i(2) by simp
    have khi: "?s ! ?k \<le> ?s ! ?hi"
      unfolding hi using ik i(1) by (intro sorted_nth_mono) auto
    have "(of_nat ((?n - 1) mod 5) :: rat) < 5"
    proof -
      have "(?n - 1) mod 5 < 5" by simp
      then have "(of_nat ((?n - 1) mod 5) :: rat) < of_nat 5" by (simp only: of_nat_less_iff)
      then show ?thesis by simp
    qed
    then have g: "(of_nat ((?n - 1) mod 5) / 5 :: rat) < 1" by simp
    have "np_percentile a 20 < of_nat x"
    proof (cases "?s ! ?hi = ?s ! ?k")
      case True
      then have "np_percentile a 20 = of_nat (?s ! ?k)" unfolding percentile_value by simp
      then show ?thesis using gt by simp
    next
      case False
      with khi have "?s ! ?k < ?s ! ?hi" by simp
      then have d: "(0 :: rat) < of_nat (?s ! ?hi) - of_nat (?s ! ?k)" by simp
      have "(of_nat (?s ! ?hi) - of_nat (?s ! ?k)) * (of_nat ((?n - 1) mod 5) / 5 :: rat)
              < (of_nat (?s ! ?hi) - of_nat (?s ! ?k)) * 1"
        using g d by (rule mult_strict_left_mono)
      then have "np_percentile a 20 < of_nat (?s ! ?hi)"
        unfolding percentile_value by simp
      also have "\<dots> \<le> of_nat x" using xhi by simp
      finally show ?thesis .
    qed
    then show False using le by simp
  qed
qed

lemma thresholded_at_rank:
  assumes "concat ocr_crop \<noteq> []"
  shows "map (map (\<lambda>px. if of_nat (unat (cvtColor px))
              \<le> np_percentile (map (unat \<circ> cvtColor) (concat ocr_crop)) 20 then 0 else 255 :: uint8)) ocr_crop
       = map (map (\<lambda>px. if unat (cvtColor px)
              \<le> sort (map (unat \<circ> cvtColor) (concat ocr_crop))
                   ! ((length (map (unat \<circ> cvtColor) (concat ocr_crop)) - 1) div 5) then 0 else 255)) ocr_crop"
proof -
  let ?a = "map (unat \<circ> cvtColor) (concat ocr_crop)"
  have ne: "?a \<noteq> []" using assms by simp
  have px: "((of_nat (unat (cvtColor px)) :: rat) \<le> np_percentile ?a 20)
              = (unat (cvtColor px) \<le> sort ?a ! ((length ?a - 1) div 5))"
    if "row \<in> set ocr_crop" and "px \<in> set row" for row px
  proof -
    have "px \<in> set (concat ocr_crop)" using that by auto
    then have "unat (cvtColor px) \<in> set ?a" by (simp add: image_iff) blast
    with ne show ?thesis by (rule threshold_selects_rank)
  qed
  show ?thesis
    by (intro map_cong refl) (simp only: px)
qed

lemma graded_counts:
  "length (map (unat \<circ> green_channel) (concat graded_crop))
      \<le> 5 * length (filter (\<lambda>x. x \<le> 20) (map (unat \<circ> green_channel) (concat graded_crop)))"
  "5 * length (filter (\<lambda>x. x < 20) (map (unat \<circ> green_channel) (concat graded_crop)))
      < length (map (unat \<circ> green_channel) (concat graded_crop))"
  by (simp_all add: graded_crop_def green_channel_def)

lemma graded_image:
  "map (map (\<lambda>px. if unat (green_channel px) \<le> 20 then 0 else 255 :: uint8)) graded_crop
     = [[255, 0, 255, 255, 255], [255, 0, 255, 255, 255]]"
  by (simp add: graded_crop_def green_channel_def)

lemma graded_percentile: "np_percentile (map (unat \<circ> green_channel) (concat graded_crop)) 20 = 28"
  unfolding percentile_value by (simp add: graded_crop_def green_channel_def)

lemma sample_pixel: "unat (green_channel (sample_crop ! 0 ! 1)) = 200"
  by (simp add: sample_crop_def green_channel_def)

text \<open>
  Claim C8, as amended. For every crop processed with the percentile-threshold method (the
  branch taken for GEN1 to GEN4) that has at least one pixel: the crop is converted to a
  single channel, and there is an intensity \<open>v\<close> of the crop such that

  \<^item> \<open>v\<close> is the 20th percentile of the intensities: at least a fifth of the pixels are at
    or below \<open>v\<close>, fewer than a fifth are strictly below it, and no other number has both
    properties;
  \<^item> the threshold the code computes with \<^verbatim>\<open>np.percentile(gray, 20)\<close> selects the same
    pixels as \<open>v\<close>: a pixel is at or below that threshold exactly when it is at or below
    \<open>v\<close>;
  \<^item> the image handed on is 0 (dark) exactly at the pixels whose intensity is at or below
    \<open>v\<close> and 255 (light) elsewhere, which is the binarised image inverted to dark text on
    light; the pixels equal to the threshold are text too, not only the darker ones;
  \<^item> it goes to the recogniser with \<^verbatim>\<open>--psm 7\<close>, the single-line mode.
\<close>

theorem percentile_threshold_pipeline:
  assumes "generation cfg \<in> {GEN1, GEN2, GEN3, GEN4}" and "concat ocr_crop \<noteq> []"
  shows "\<exists>v. v \<in> set (map (unat \<circ> cvtColor) (concat ocr_crop))
       \<and> length (map (unat \<circ> cvtColor) (concat ocr_crop))
           \<le> 5 * length (filter (\<lambda>x. x \<le> v) (map (unat \<circ> cvtColor) (concat ocr_crop)))
       \<and> 5 * length (filter (\<lambda>x. x < v) (map (unat \<circ> cvtColor) (concat ocr_crop)))
           < length (map (unat \<circ> cvtColor) (concat ocr_crop))
       \<and> (\<forall>w. length (map (unat \<circ> cvtColor) (concat ocr_crop))
                 \<le> 5 * length (filter (\<lambda>x. x \<le> w) (map (unat \<circ> cvtColor) (concat ocr_crop)))
              \<and> 5 * length (filter (\<lambda>x. x < w) (map (unat \<circ> cvtColor) (concat ocr_crop)))
                 < length (map (unat \<circ> cvtColor) (concat ocr_crop))
              \<longrightarrow> w = v)
       \<and> (\<forall>px \<in> set (concat ocr_crop).
              (of_nat (unat (cvtColor px)) \<le> np_percentile (map (unat \<circ> cvtColor) (concat ocr_crop)) 20)
                = (unat (cvtColor px) \<le> v))
       \<and> get_ocr_text_at_frame image_to_string cvtColor cfg ocr_crop pil_image =
           Inr (image_to_string
             (Grey (map (map (\<lambda>px. if unat (cvtColor px) \<le> v then 0 else 255)) ocr_crop))
             ''--psm 7'')"
proof -
  let ?a = "map (unat \<circ> cvtColor) (concat ocr_crop)"
  let ?v = "sort ?a ! ((length ?a - 1) div 5)"
  have ne: "?a \<noteq> []" using assms(2) by simp
  have m: "?v \<in> set ?a" using ne by (rule rank_member)
  have le: "length ?a \<le> 5 * length (filter (\<lambda>x. x \<le> ?v) ?a)" using ne by (rule count_at_or_below)
  have lt: "5 * length (filter (\<lambda>x. x < ?v) ?a) < length ?a" using ne by (rule count_strictly_below)
  have u: "\<forall>w. length ?a \<le> 5 * length (filter (\<lambda>x. x \<le> w) ?a)
              \<and> 5 * length (filter (\<lambda>x. x < w) ?a) < length ?a \<longrightarrow> w = ?v"
    using rank_unique[OF le lt] by blast
  have s: "\<forall>px \<in> set (concat ocr_crop).
              ((of_nat (unat (cvtColor px)) :: rat) \<le> np_percentile ?a 20) = (unat (cvtColor px) \<le> ?v)"
  proof
    fix px assume "px \<in> set (concat ocr_crop)"
    then have "unat (cvtColor px) \<in> set ?a" by (simp add: image_iff) blast
    with ne show "((of_nat (unat (cvtColor px)) :: rat) \<le> np_percentile ?a 20) = (unat (cvtColor px) \<le> ?v)"
      by (rule threshold_selects_rank)
  qed
  have "generation cfg \<noteq> GEN5" using assms(1) by auto
  then have r: "get_ocr_text_at_frame image_to_string cvtColor cfg ocr_crop pil_image =
           Inr (image_to_string
             (Grey (map (map (\<lambda>px. if unat (cvtColor px) \<le> ?v then 0 else 255)) ocr_crop))
             ''--psm 7'')"
    using assms(2) unfolding thresholded_at_rank[OF assms(2), symmetric] by (rule percentile_branch)
  from m le lt u s r show ?thesis by blast
qed

text \<open>
  On a crop of ten pixels with the green intensities 10, 20, ..., 100 (in mixed order) of a
  Crystal (GEN2) video, \<^verbatim>\<open>np.percentile\<close> gives 28 and the 20th percentile of the pixels is
  20: exactly the two pixels of intensity 10 and 20 come out dark.
\<close>

theorem percentile_threshold_pipeline_witness:
  "generation crystal \<in> {GEN1, GEN2, GEN3, GEN4} \<and> concat graded_crop \<noteq> []
     \<and> np_percentile (map (unat \<circ> green_channel) (concat graded_crop)) 20 = 28
     \<and> get_ocr_text_at_frame Pair green_channel crystal graded_crop (Colour graded_crop)
         = Inr (Grey [[255, 0, 255, 255, 255], [255, 0, 255, 255, 255]], ''--psm 7'')"
proof -
  have g: "generation crystal \<in> {GEN1, GEN2, GEN3, GEN4}" by (simp add: crystal_def)
  have c: "concat graded_crop \<noteq> []" by (simp add: graded_crop_def)
  let ?a = "map (unat \<circ> green_channel) (concat graded_crop)"
  from percentile_threshold_pipeline[OF g c, of green_channel Pair "Colour graded_crop"]
  obtain v where u: "\<forall>w. length ?a \<le> 5 * length (filter (\<lambda>x. x \<le> w) ?a)
              \<and> 5 * length (filter (\<lambda>x. x < w) ?a) < length ?a \<longrightarrow> w = v"
    and r: "get_ocr_text_at_frame Pair green_channel crystal graded_crop (Colour graded_crop) =
           Inr (Grey (map (map (\<lambda>px. if unat (green_channel px) \<le> v then 0 else 255)) graded_crop),
                ''--psm 7'')"
    by blast
  from u graded_counts have "20 = v" by blast
  with r have "get_ocr_text_at_frame Pair green_channel crystal graded_crop (Colour graded_crop)
         = Inr (Grey [[255, 0, 255, 255, 255], [255, 0, 255, 255, 255]], ''--psm 7'')"
    unfolding graded_image[symmetric] by simp
  with g c graded_percentile show ?thesis by blast
qed

text \<open>
  The claim as stated makes the pixels darker than the threshold the text. On the sample
  crop (green intensities 10, 200, 210, 220, 230, 240) the threshold is 200; the second
  pixel of the first row has intensity 200, which is not darker than the threshold, and it
  comes out as text (0) like the pixel of intensity 10.
\<close>

theorem pixel_at_threshold_is_text_counterexample:
  "generation crystal \<in> {GEN1, GEN2, GEN3, GEN4} \<and> concat sample_crop \<noteq> []
     \<and> np_percentile (map (unat \<circ> green_channel) (concat sample_crop)) 20 = 200
     \<and> unat (green_channel (sample_crop ! 0 ! 1)) = 200
     \<and> \<not> of_nat (unat (green_channel (sample_crop ! 0 ! 1)))
           < np_percentile (map (unat \<circ> green_channel) (concat sample_crop)) 20
     \<and> get_ocr_text_at_frame Pair green_channel crystal sample_crop (Colour sample_crop)
         = Inr (Grey [[0, 0], [255, 255], [255, 255]], ''--psm 7'')"
proof -
  have g: "generation crystal \<in> {GEN1, GEN2, GEN3, GEN4}" by (simp add: crystal_def)
  have g': "generation crystal \<noteq> GEN5" by (simp add: crystal_def)
  have c: "concat sample_crop \<noteq> []" by (simp add: sample_crop_def)
  have n: "\<not> (of_nat (unat (green_channel (sample_crop ! 0 ! 1))) :: rat)
           < np_percentile (map (unat \<circ> green_channel) (concat sample_crop)) 20"
    unfolding sample_percentile sample_pixel by simp
  have r: "get_ocr_text_at_frame Pair green_channel crystal sample_crop (Colour sample_crop)
         = Inr (Grey [[0, 0], [255, 255], [255, 255]], ''--psm 7'')"
    unfolding percentile_branch[OF g' c] sample_processed ..
  from g c sample_percentile sample_pixel n r show ?thesis by blast
qed
subsection \<open>OCR method selection\<close>

text \<open>
  Claim C1, as amended. For every crop and configuration, the method
  \<^verbatim>\<open>_get_ocr_text_at_frame\<close> applies is decided by the generation alone: GEN1 to GEN4 hand
  the percentile-thresholded image to the recogniser with \<^verbatim>\<open>--psm 7\<close> (line mode), GEN5
  hands the raw image over with \<^verbatim>\<open>--psm 6\<close> (block mode). Two configurations that are
  both GEN5 or both not GEN5 get the same result on the same inputs, whatever their pattern
  family and other fields are. Two configurations sharing the "team" pattern family get
  different preprocessing when one is of GEN1 to GEN4 and the other of GEN5; two "team"
  configurations of different generations within GEN1 to GEN4 get the same.
\<close>

theorem ocr_method_keyed_on_generation:
  "(generation cfg \<in> {GEN1, GEN2, GEN3, GEN4} \<and> concat ocr_crop \<noteq> [] \<longrightarrow>
      get_ocr_text_at_frame Pair cvtColor cfg ocr_crop pil_image =
        Inr (Grey (map (map (\<lambda>px. if of_nat (unat (cvtColor px))
                  \<le> np_percentile (map (unat \<circ> cvtColor) (concat ocr_crop)) 20 then 0 else 255)) ocr_crop),
             ''--psm 7''))
   \<and> (generation cfg = GEN5 \<longrightarrow>
      get_ocr_text_at_frame Pair cvtColor cfg ocr_crop pil_image = Inr (pil_image, ''--psm 6''))
   \<and> ((generation cfg = GEN5) = (generation cfg' = GEN5) \<longrightarrow>
      get_ocr_text_at_frame image_to_string cvtColor cfg ocr_crop pil_image
        = get_ocr_text_at_frame image_to_string cvtColor cfg' ocr_crop pil_image)
   \<and> (ocr_pattern cfg = ''team'' \<and> ocr_pattern cfg' = ''team''
        \<and> generation cfg \<in> {GEN1, GEN2, GEN3, GEN4} \<and> generation cfg' = GEN5 \<longrightarrow>
      get_ocr_text_at_frame Pair cvtColor cfg ocr_crop pil_image
        \<noteq> get_ocr_text_at_frame Pair cvtColor cfg' ocr_crop pil_image)"
proof (intro conjI impI)
  assume "generation cfg \<in> {GEN1, GEN2, GEN3, GEN4} \<and> concat ocr_crop \<noteq> []"
  then have "generation cfg \<noteq> GEN5" "concat ocr_crop \<noteq> []" by auto
  then show "get_ocr_text_at_frame Pair cvtColor cfg ocr_crop pil_image =
        Inr (Grey (map (map (\<lambda>px. if of_nat (unat (cvtColor px))
                  \<le> np_percentile (map (unat \<circ> cvtColor) (concat ocr_crop)) 20 then 0 else 255)) ocr_crop),
             ''--psm 7'')"
    by (rule percentile_branch)
next
  assume "generation cfg = GEN5"
  then show "get_ocr_text_at_frame Pair cvtColor cfg ocr_crop pil_image = Inr (pil_image, ''--psm 6'')"
    by (rule raw_branch)
next
  assume "(generation cfg = GEN5) = (generation cfg' = GEN5)"
  then show "get_ocr_text_at_frame image_to_string cvtColor cfg ocr_crop pil_image
        = get_ocr_text_at_frame image_to_string cvtColor cfg' ocr_crop pil_image"
    by (rule same_branch)
next
  assume a: "ocr_pattern cfg = ''team'' \<and> ocr_pattern cfg' = ''team''
        \<and> generation cfg \<in> {GEN1, GEN2, GEN3, GEN4} \<and> generation cfg' = GEN5"
  then have g: "generation cfg \<noteq> GEN5" and g': "generation cfg' = GEN5" by auto
  show "get_ocr_text_at_frame Pair cvtColor cfg ocr_crop pil_image
        \<noteq> get_ocr_text_at_frame Pair cvtColor cfg' ocr_crop pil_image"
  proof (cases "concat ocr_crop = []")
    case True
    then show ?thesis using g g' by (simp add: empty_branch raw_branch)
  next
    case False
    then show ?thesis using g g' by (simp add: percentile_branch raw_branch)
  qed
qed

text \<open>
  Crystal (GEN2, "team") against a GEN5 configuration with the same pattern family and
  regions, and against Yellow (GEN1, "team"), on the sample crop.
\<close>

theorem ocr_method_keyed_on_generation_witness:
  "generation crystal \<in> {GEN1, GEN2, GEN3, GEN4} \<and> concat sample_crop \<noteq> []
   \<and> get_ocr_text_at_frame Pair green_channel crystal sample_crop (Colour sample_crop)
        = Inr (Grey [[0, 0], [255, 255], [255, 255]], ''--psm 7'')
   \<and> generation (crystal\<lparr>generation := GEN5\<rparr>) = GEN5
   \<and> get_ocr_text_at_frame Pair green_channel (crystal\<lparr>generation := GEN5\<rparr>) sample_crop (Colour sample_crop)
        = Inr (Colour sample_crop, ''--psm 6'')
   \<and> (generation crystal = GEN5) = (generation yellow = GEN5)
   \<and> get_ocr_text_at_frame Pair green_channel crystal sample_crop (Colour sample_crop)
        = get_ocr_text_at_frame Pair green_channel yellow sample_crop (Colour sample_crop)
   \<and> ocr_pattern crystal = ''team'' \<and> ocr_pattern (crystal\<lparr>generation := GEN5\<rparr>) = ''team''
   \<and> get_ocr_text_at_frame Pair green_channel crystal sample_crop (Colour sample_crop)
        \<noteq> get_ocr_text_at_frame Pair green_channel (crystal\<lparr>generation := GEN5\<rparr>) sample_crop (Colour sample_crop)"
proof -
  have g: "generation crystal \<in> {GEN1, GEN2, GEN3, GEN4}" by (simp add: crystal_def)
  have c: "concat sample_crop \<noteq> []" by (simp add: sample_crop_def)
  have g5: "generation (crystal\<lparr>generation := GEN5\<rparr>) = GEN5" by simp
  have y: "(generation crystal = GEN5) = (generation yellow = GEN5)"
    by (simp add: crystal_def yellow_def)
  have p: "ocr_pattern crystal = ''team''" "ocr_pattern (crystal\<lparr>generation := GEN5\<rparr>) = ''team''"
    by (simp_all add: crystal_def)
  note t1 = ocr_method_keyed_on_generation[of crystal sample_crop green_channel "Colour sample_crop"
      "crystal\<lparr>generation := GEN5\<rparr>" Pair]
  note t2 = ocr_method_keyed_on_generation[of "crystal\<lparr>generation := GEN5\<rparr>" sample_crop green_channel
      "Colour sample_crop" crystal Pair]
  note t3 = ocr_method_keyed_on_generation[of crystal sample_crop green_channel "Colour sample_crop"
      yellow Pair]
  have a: "get_ocr_text_at_frame Pair green_channel crystal sample_crop (Colour sample_crop)
        = Inr (Grey [[0, 0], [255, 255], [255, 255]], ''--psm 7'')"
    using t1 g c unfolding sample_processed by blast
  have b: "get_ocr_text_at_frame Pair green_channel (crystal\<lparr>generation := GEN5\<rparr>) sample_crop (Colour sample_crop)
        = Inr (Colour sample_crop, ''--psm 6'')"
    using t2 g5 by blast
  have d: "get_ocr_text_at_frame Pair green_channel crystal sample_crop (Colour sample_crop)
        = get_ocr_text_at_frame Pair green_channel yellow sample_crop (Colour sample_crop)"
    using t3 y by blast
  have e: "get_ocr_text_at_frame Pair green_channel crystal sample_crop (Colour sample_crop)
        \<noteq> get_ocr_text_at_frame Pair green_channel (crystal\<lparr>generation := GEN5\<rparr>) sample_crop (Colour sample_crop)"
    using t1 g g5 p by blast
  show ?thesis using g c g5 y p a b d e by blast
qed

text \<open>
  The claim as stated fails: Yellow (GEN1) and Crystal (GEN2) share the "team" pattern
  family and differ in generation, and get the same preprocessing.
\<close>

theorem team_profiles_same_preprocessing_counterexample:
  "ocr_pattern yellow = ''team'' \<and> ocr_pattern crystal = ''team''
   \<and> generation yellow \<noteq> generation crystal
   \<and> get_ocr_text_at_frame Pair green_channel yellow sample_crop (Colour sample_crop)
        = Inr (Grey [[0, 0], [255, 255], [255, 255]], ''--psm 7'')
   \<and> get_ocr_text_at_frame Pair green_channel crystal sample_crop (Colour sample_crop)
        = Inr (Grey [[0, 0], [255, 255], [255, 255]], ''--psm 7'')"
proof -
  have y: "generation yellow \<noteq> GEN5" and c: "generation crystal \<noteq> GEN5"
    by (simp_all add: yellow_def crystal_def)
  have n: "concat sample_crop \<noteq> []" by (simp add: sample_crop_def)
  show ?thesis
    unfolding percentile_branch[OF y n] percentile_branch[OF c n] sample_processed
    by (simp add: yellow_def crystal_def)
qed

subsection \<open>Rival patterns and the trainer matcher\<close>

lemma search_from_suffix:
  "search_from r prev t = Some m \<Longrightarrow>
     \<exists>pre. t = pre @ m \<and> match_here r (if pre = [] then prev else Some (last pre)) m"
proof (induction t arbitrary: prev)
  case Nil
  then show ?case by (auto split: if_splits)
next
  case (Cons c rest)
  show ?case
  proof (cases "match_here r prev (c # rest)")
    case True
    with Cons.prems have "m = c # rest" by simp
    with True show ?thesis by (intro exI[of _ "[]"]) simp
  next
    case False
    with Cons.prems have "search_from r (Some c) rest = Some m" by simp
    from Cons.IH[OF this] obtain pre where
      pre: "rest = pre @ m" "match_here r (if pre = [] then Some c else Some (last pre)) m"
      by blast
    then show ?thesis by (intro exI[of _ "c # pre"]) auto
  qed
qed

lemma lit_prefix:
  "match_here (lit s @ r) prev t \<Longrightarrow> \<exists>post. t = ustr s @ post"
proof (induction s arbitrary: prev t)
  case Nil
  then show ?case by (simp add: ustr_def)
next
  case (Cons c s)
  from Cons.prems obtain x rest where t: "t = x # rest"
    by (cases t) (auto simp: lit_def)
  with Cons.prems have x: "x = of_char c" and m: "match_here (lit s @ r) (Some x) rest"
    by (auto simp: lit_def)
  from Cons.IH[OF m] obtain post where "rest = ustr s @ post" by blast
  with t x show ?case by (simp add: ustr_def)
qed

lemma rival_pattern_anchored:
  assumes "p \<in> set rival_patterns" and "re_search p t = Some m"
  shows "\<exists>pre post. t = pre @ ustr ''rival'' @ post \<and> (pre = [] \<or> \<not> is_word_char (last pre))"
proof -
  from assms(2) obtain pre where
    pre: "t = pre @ m" "match_here p (if pre = [] then None else Some (last pre)) m"
    unfolding re_search_def by (blast dest: search_from_suffix)
  let ?prev = "if pre = [] then None else Some (last pre)"
  from assms(1) obtain r where p: "p = WordBoundary # lit ''rival'' @ r"
    by (auto simp: rival_patterns_def lit_def)
  with pre(2) have b: "at_word_boundary ?prev m" and l: "match_here (lit ''rival'' @ r) ?prev m"
    by simp_all
  from lit_prefix[OF l] obtain post where post: "m = ustr ''rival'' @ post" by blast
  then have "case m of [] \<Rightarrow> False | c # _ \<Rightarrow> is_word_char c"
    by (simp add: ustr_def is_word_char_def)
  with b have "pre = [] \<or> \<not> is_word_char (last pre)"
    by (auto simp: at_word_boundary_def split: if_splits)
  with pre(1) post show ?thesis by blast
qed

lemma first_match_rival:
  "first_match t rival_rules = Some k \<Longrightarrow> \<exists>p \<in> set rival_patterns. \<exists>m. re_search p t = Some m"
  by (auto simp: rival_rules_def rival_patterns_def split: option.splits)

lemma digits_of_digits: "list_all is_digit (digits_of n) \<and> digits_of n \<noteq> []"
proof (induction n rule: digits_of.induct)
  case (1 n)
  show ?case
  proof (cases "n < 10")
    case True
    then show ?thesis by (simp add: digits_of.simps[of n] is_digit_def)
  next
    case False
    have "n mod 10 < 10" by simp
    then have "is_digit (48 + n mod 10)" unfolding is_digit_def by linarith
    with False 1 show ?thesis by (simp add: digits_of.simps[of n])
  qed
qed

lemma decimal_snoc: "decimal (ds @ [c]) = 10 * decimal ds + (c - 48)"
  by (simp add: decimal_def)

lemma decimal_digits_of: "decimal (digits_of n) = n"
proof (induction n rule: digits_of.induct)
  case (1 n)
  show ?case
  proof (cases "n < 10")
    case True
    then show ?thesis by (simp add: digits_of.simps[of n] decimal_def)
  next
    case False
    then have "decimal (digits_of n) = 10 * decimal (digits_of (n div 10)) + n mod 10"
      by (simp add: digits_of.simps[of n] decimal_snoc)
    with False 1 show ?thesis by simp
  qed
qed

lemma digit_not_space: "is_digit c \<Longrightarrow> \<not> is_space c"
  by (auto simp: is_digit_def is_space_def)

lemma digit_fixed: "is_digit c \<Longrightarrow> straighten (to_lower c) = c"
  by (auto simp: is_digit_def straighten_def to_lower_def)

lemma map_digits_fixed: "list_all is_digit ds \<Longrightarrow> map (\<lambda>c. straighten (to_lower c)) ds = ds"
  by (induction ds) (simp_all add: digit_fixed)

lemma collapse_digits:
  "list_all is_digit ds \<Longrightarrow> collapse_whitespace (ds @ rest) = ds @ collapse_whitespace rest"
  by (induction ds) (simp_all add: digit_not_space)

lemma dropWhile_space_digits:
  "list_all is_digit ds \<Longrightarrow> ds \<noteq> [] \<Longrightarrow> dropWhile is_space (ds @ rest) = ds @ rest"
  by (cases ds) (simp_all add: digit_not_space)

lemma normalize_text_numbered:
  assumes "list_all is_digit ds" and "ds \<noteq> []" and "sp = [] \<or> sp = [32]"
  shows "normalize_text (ustr ''rival'' @ sp @ ds @ ustr '''s team'') = ustr ''rival'' @ sp @ ds @ ustr '''s team''"
proof -
  have tail: "collapse_whitespace (ustr '''s team'') = ustr '''s team''"
    by (simp add: ustr_def is_space_def)
  have body: "collapse_whitespace (sp @ ds @ ustr '''s team'') = sp @ ds @ ustr '''s team''"
    using assms tail by (auto simp: collapse_digits dropWhile_space_digits is_space_def)
  let ?f = "\<lambda>c. straighten (to_lower c)"
  have m1: "map ?f (ustr ''rival'') = ustr ''rival''"
    by (simp add: ustr_def straighten_def to_lower_def)
  have m2: "map ?f sp = sp"
    using assms(3) by (auto simp: straighten_def to_lower_def)
  have m3: "map ?f ds = ds"
    using assms(1) by (rule map_digits_fixed)
  have m4: "map ?f (ustr '''s team'') = ustr '''s team''"
    by (simp add: ustr_def straighten_def to_lower_def)
  have m: "map ?f (ustr ''rival'' @ sp @ ds @ ustr '''s team'')
             = ustr ''rival'' @ sp @ ds @ ustr '''s team''"
    unfolding map_append m1 m2 m3 m4 ..
  show ?thesis
    unfolding normalize_text_def m using body by (simp add: ustr_def is_space_def)
qed

lemma star_digits:
  "list_all is_digit ds \<Longrightarrow> match_here r (if ds = [] then prev else Some (last ds)) rest
     \<Longrightarrow> match_here (Star Digit # r) prev (ds @ rest)"
proof (induction ds arbitrary: prev)
  case Nil
  then show ?case by (cases rest) simp_all
next
  case (Cons d ds)
  have "match_here r (if ds = [] then Some d else Some (last ds)) rest"
    using Cons.prems(2) by (cases "ds = []") simp_all
  with Cons.IH[of "Some d"] Cons.prems(1) have "match_here (Star Digit # r) (Some d) (ds @ rest)"
    by simp
  with Cons.prems(1) show ?case by simp
qed

lemma numbered_tail:
  "match_here ([Opt apostrophe] @ lit ''s'' @ [Plus Whitespace] @ lit ''team'') prev (ustr '''s team'')"
  by (simp add: lit_def ustr_def apostrophe_def is_space_def)

lemma numbered_matches:
  assumes "list_all is_digit ds" and "ds \<noteq> []" and "sp = [] \<or> sp = [32]"
  shows "match_here (rival_patterns ! 0) None (ustr ''rival'' @ sp @ ds @ ustr '''s team'')"
proof -
  obtain d ds' where ds: "ds = d # ds'" using assms(2) by (cases ds) auto
  let ?tail = "[Opt apostrophe] @ lit ''s'' @ [Plus Whitespace] @ lit ''team''"
  have d: "is_digit d" "list_all is_digit ds'" using assms(1) ds by simp_all
  have star: "match_here (Star Digit # ?tail) (Some d) (ds' @ ustr '''s team'')"
    using d(2) numbered_tail by (rule star_digits)
  then have plus: "\<And>prev. match_here (Plus Digit # ?tail) prev (ds @ ustr '''s team'')"
    using d(1) ds by simp
  have ws: "\<And>prev. match_here (Star Whitespace # Plus Digit # ?tail) prev (ds @ ustr '''s team'')"
    using plus d(1) ds by (simp add: digit_not_space)
  have "\<And>prev. match_here (Star Whitespace # Plus Digit # ?tail) prev (sp @ ds @ ustr '''s team'')"
    using assms(3) ws by (auto simp: is_space_def)
  then show ?thesis
    by (simp add: rival_patterns_def lit_def ustr_def at_word_boundary_def is_word_char_def)
qed

lemma rival_number_numbered:
  assumes "list_all is_digit ds" and "ds \<noteq> []" and "sp = [] \<or> sp = [32]"
  shows "rival_number (ustr ''rival'' @ sp @ ds @ ustr '''s team'') = decimal ds"
proof -
  have "drop 5 (ustr ''rival'' @ sp @ ds @ ustr '''s team'') = sp @ ds @ ustr '''s team''"
    by (simp add: ustr_def)
  moreover have "dropWhile is_space (sp @ ds @ ustr '''s team'') = ds @ ustr '''s team''"
    using assms by (auto simp: dropWhile_space_digits is_space_def)
  moreover have "takeWhile is_digit (ds @ ustr '''s team'') = ds"
    using assms(1) by (induction ds) (simp_all add: ustr_def is_digit_def)
  ultimately show ?thesis by (simp add: rival_number_def)
qed

lemma numbered_variant:
  assumes "sp = [] \<or> sp = [32]"
  shows "TrainerMatcher_match (ustr ''rival'' @ sp @ digits_of n @ ustr '''s team'') rival_rules
           = Some (Rival (Some n))"
proof -
  let ?t = "ustr ''rival'' @ sp @ digits_of n @ ustr '''s team''"
  have d: "list_all is_digit (digits_of n)" "digits_of n \<noteq> []"
    using digits_of_digits[of n] by simp_all
  have "match_here (rival_patterns ! 0) None ?t"
    using d assms by (rule numbered_matches)
  then have "re_search (rival_patterns ! 0) ?t = Some ?t"
    by (simp add: re_search_def ustr_def)
  moreover have "rival_rules = (rival_patterns ! 0, numbered_rival) # tl rival_rules"
    by (simp add: rival_rules_def rival_patterns_def)
  ultimately have "first_match ?t rival_rules = Some (Rival (Some (rival_number ?t)))"
    by (metis first_match.simps(2) option.simps(5) identity_of.simps(2))
  then show ?thesis
    unfolding TrainerMatcher_match_def normalize_text_numbered[OF d assms]
    by (simp add: rival_number_numbered[OF d assms] decimal_digits_of)
qed

lemma evaluation_rules:
  "re_search r s = search_from r None s"
  "ustr s' = map of_char s'"
  "lit s' = map (\<lambda>c. One (Chr (of_char c))) s'"
  "apostrophe = AnyOf [39, 8217]"
  "is_space c = (c \<in> set [32, 9, 10, 11, 12, 13, 28, 29, 30, 31])"
  "is_digit c = (48 \<le> c \<and> c \<le> 57)"
  "is_word_char c = ((97 \<le> c \<and> c \<le> 122) \<or> (65 \<le> c \<and> c \<le> 90) \<or> is_digit c \<or> c = 95)"
  "to_lower c = (if 65 \<le> c \<and> c \<le> 90 then c + 32 else c)"
  "straighten c = (if c = 8217 then 39 else c)"
  "normalize_text t = collapse_whitespace (map (\<lambda>c. straighten (to_lower c)) t)"
  "TrainerMatcher_match t ps = first_match (normalize_text t) ps"
  "rival_number m = decimal (takeWhile is_digit (dropWhile is_space (drop 5 m)))"
  "decimal ds = foldl (\<lambda>n c. 10 * n + (c - 48)) 0 ds"
  by (simp_all add: re_search_def ustr_def lit_def apostrophe_def is_space_def is_digit_def
      is_word_char_def to_lower_def straighten_def normalize_text_def TrainerMatcher_match_def
      rival_number_def decimal_def)

lemma bare_rival: "TrainerMatcher_match (ustr ''rival's team'') rival_rules = Some (Rival None)"
  by (simp add: evaluation_rules rival_rules_def rival_patterns_def at_word_boundary_def)

lemma rival_2_spaced: "TrainerMatcher_match (ustr ''rival 2's team'') rival_rules = Some (Rival (Some 2))"
  by (simp add: evaluation_rules rival_rules_def rival_patterns_def at_word_boundary_def)

lemma rival_2_compact: "TrainerMatcher_match (ustr ''rival2's team'') rival_rules = Some (Rival (Some 2))"
  by (simp add: evaluation_rules rival_rules_def rival_patterns_def at_word_boundary_def)

lemma rival_no_apostrophe: "TrainerMatcher_match (ustr ''rivals team'') rival_rules = Some (Rival None)"
  by (simp add: evaluation_rules rival_rules_def rival_patterns_def at_word_boundary_def)

lemma rival_misread: "TrainerMatcher_match (ustr ''rivalt's team'') rival_rules = Some (Rival None)"
  by (simp add: evaluation_rules rival_rules_def rival_patterns_def at_word_boundary_def)

lemma rival_raw_ocr:
  "TrainerMatcher_match (ustr ''Rival  5'' @ [8217] @ ustr ''s Team'') rival_rules = Some (Rival (Some 5))"
  by (simp add: evaluation_rules rival_rules_def rival_patterns_def at_word_boundary_def)

lemma arrival_no_match: "TrainerMatcher_match (ustr ''arrival's team'') rival_rules = None"
  by (simp add: evaluation_rules rival_rules_def rival_patterns_def at_word_boundary_def)

lemma rivalry_no_match: "TrainerMatcher_match (ustr ''rivalry's team'') rival_rules = None"
  by (simp add: evaluation_rules rival_rules_def rival_patterns_def at_word_boundary_def)

text \<open>
  Claim C5. Each of the normalized texts "rival's team", "rival 2's team", "rival2's team",
  "rivals team" and the misread "rivalt's team" is matched to an identity of the Rival
  family; the numbered variants resolve to the rival of that number, for every number
  \<open>n\<close> written with or without a space after "rival". The patterns are anchored on a word
  boundary: whenever a text is matched, its normalized form holds "rival" at the start or
  after a non-word character, so "arrival's team" is not matched; and "rival" must be
  followed by the possessive, so "rivalry's team" is not matched either.
\<close>

theorem rival_family_match:
  "TrainerMatcher_match (ustr ''rival's team'') rival_rules = Some (Rival None)
   \<and> TrainerMatcher_match (ustr ''rival 2's team'') rival_rules = Some (Rival (Some 2))
   \<and> TrainerMatcher_match (ustr ''rival2's team'') rival_rules = Some (Rival (Some 2))
   \<and> TrainerMatcher_match (ustr ''rivals team'') rival_rules = Some (Rival None)
   \<and> TrainerMatcher_match (ustr ''rivalt's team'') rival_rules = Some (Rival None)
   \<and> TrainerMatcher_match (ustr ''rival '' @ digits_of n @ ustr '''s team'') rival_rules
        = Some (Rival (Some n))
   \<and> TrainerMatcher_match (ustr ''rival'' @ digits_of n @ ustr '''s team'') rival_rules
        = Some (Rival (Some n))
   \<and> TrainerMatcher_match (ustr ''arrival's team'') rival_rules = None
   \<and> TrainerMatcher_match (ustr ''rivalry's team'') rival_rules = None
   \<and> (list_all latin t \<and> TrainerMatcher_match t rival_rules \<noteq> None \<longrightarrow>
        (\<exists>pre post. normalize_text t = pre @ ustr ''rival'' @ post
           \<and> (pre = [] \<or> \<not> is_word_char (last pre))))"
proof -
  have spaced: "TrainerMatcher_match (ustr ''rival '' @ digits_of n @ ustr '''s team'') rival_rules
        = Some (Rival (Some n))"
    using numbered_variant[of "[32]" n] by (simp add: ustr_def)
  have compact: "TrainerMatcher_match (ustr ''rival'' @ digits_of n @ ustr '''s team'') rival_rules
        = Some (Rival (Some n))"
    using numbered_variant[of "[]" n] by simp
  have anchored: "list_all latin t \<and> TrainerMatcher_match t rival_rules \<noteq> None \<longrightarrow>
        (\<exists>pre post. normalize_text t = pre @ ustr ''rival'' @ post
           \<and> (pre = [] \<or> \<not> is_word_char (last pre)))"
  proof
    assume "list_all latin t \<and> TrainerMatcher_match t rival_rules \<noteq> None"
    then obtain k where "first_match (normalize_text t) rival_rules = Some k"
      by (auto simp: TrainerMatcher_match_def)
    then obtain p m where "p \<in> set rival_patterns" "re_search p (normalize_text t) = Some m"
      by (blast dest: first_match_rival)
    then show "\<exists>pre post. normalize_text t = pre @ ustr ''rival'' @ post
           \<and> (pre = [] \<or> \<not> is_word_char (last pre))"
      by (rule rival_pattern_anchored)
  qed
  show ?thesis
    using bare_rival rival_2_spaced rival_2_compact rival_no_apostrophe rival_misread
      spaced compact arrival_no_match rivalry_no_match anchored
    by blast
qed

text \<open>At "rival 12's team": matched as rival 12, with "rival" at the start of the text.\<close>

theorem rival_family_match_witness:
  "list_all latin (ustr ''rival 12's team'')
   \<and> TrainerMatcher_match (ustr ''rival 12's team'') rival_rules = Some (Rival (Some 12))
   \<and> (\<exists>pre post. normalize_text (ustr ''rival 12's team'') = pre @ ustr ''rival'' @ post
         \<and> (pre = [] \<or> \<not> is_word_char (last pre)))"
proof -
  have l: "list_all latin (ustr ''rival 12's team'')"
    by (simp add: ustr_def latin_def)
  have d: "digits_of 12 = [49, 50]"
    by (simp add: digits_of.simps[of 12] digits_of.simps[of "Suc 0"])
  have t: "ustr ''rival '' @ digits_of 12 @ ustr '''s team'' = ustr ''rival 12's team''"
    unfolding d by (simp add: ustr_def)
  note inst = rival_family_match[of 12 "ustr ''rival 12's team''"]
  have m: "TrainerMatcher_match (ustr ''rival 12's team'') rival_rules = Some (Rival (Some 12))"
    using inst unfolding t by blast
  then have "TrainerMatcher_match (ustr ''rival 12's team'') rival_rules \<noteq> None" by simp
  with inst l have "\<exists>pre post. normalize_text (ustr ''rival 12's team'') = pre @ ustr ''rival'' @ post
         \<and> (pre = [] \<or> \<not> is_word_char (last pre))"
    by blast
  with l m show ?thesis by blast
qed

subsection \<open>Frame classification\<close>

lemma concat_uniform: "concat (replicate h (replicate w v)) = replicate (h * w) v"
  by (induction h) (simp_all add: replicate_add)

lemma sum_uniform: "sum_list (map unat (replicate n (v :: uint8))) = n * unat v"
  by (induction n) simp_all

lemma crop_whole:
  "crop (uniform_frame w h v) \<lparr>rect_x = 0, rect_y = 0, rect_width = w, rect_height = h\<rparr>
     = uniform_frame w h v"
  by (simp add: crop_def uniform_frame_def)

lemma mean_uniform:
  assumes "0 < w" and "0 < h"
  shows "mean_intensity (uniform_frame w h v) = Some (of_nat (unat v))"
proof -
  have n: "h * w \<noteq> 0" using assms by simp
  then have "replicate (h * w) v \<noteq> []" by simp
  moreover have "(of_nat (h * w * unat v) :: rat) / of_nat (h * w) = of_nat (unat v)"
    using n by (simp only: of_nat_mult) simp
  ultimately show ?thesis
    unfolding mean_intensity_def uniform_frame_def concat_uniform Let_def sum_uniform
    by (simp only: if_False length_replicate)
qed

lemma classify_uniform:
  assumes "0 < w" and "0 < h"
  shows "classify (uniform_frame w h v) \<lparr>rect_x = 0, rect_y = 0, rect_width = w, rect_height = h\<rparr>
           = Some (classify_mean (of_nat (unat v)))"
  unfolding classify_def crop_whole mean_uniform[OF assms] by simp

text \<open>
  Claim C4. For every frame and gameplay rectangle whose crop has a pixel, with \<open>m\<close> the
  mean intensity over the crop: the class is black iff \<open>m \<le> 5\<close>, white iff \<open>m \<ge> 250\<close>,
  and neither iff \<open>5 < m < 250\<close>. A mean of exactly 5 is black, exactly 250 white, 128
  neither; so are the frames of that one intensity. The four means the version summary
  measured classify as it reports: 0.01 black and 254.99 white with the GameBoy crop, 6.01
  and 238.95 neither black nor white with the wrong crop.
\<close>

theorem classify_thresholds:
  "(mean_intensity (crop f r) = Some m \<longrightarrow>
      (classify f r = Some black) = (m \<le> 5)
      \<and> (classify f r = Some white) = (250 \<le> m)
      \<and> (classify f r = Some neither) = (5 < m \<and> m < 250))
   \<and> classify_mean 5 = black \<and> classify_mean 250 = white \<and> classify_mean 128 = neither
   \<and> (0 < w \<and> 0 < h \<longrightarrow>
        classify (uniform_frame w h 5) \<lparr>rect_x = 0, rect_y = 0, rect_width = w, rect_height = h\<rparr> = Some black
      \<and> classify (uniform_frame w h 250) \<lparr>rect_x = 0, rect_y = 0, rect_width = w, rect_height = h\<rparr> = Some white
      \<and> classify (uniform_frame w h 128) \<lparr>rect_x = 0, rect_y = 0, rect_width = w, rect_height = h\<rparr> = Some neither)
   \<and> classify_mean (1 / 100) = black \<and> classify_mean (25499 / 100) = white
   \<and> classify_mean (601 / 100) = neither \<and> classify_mean (23895 / 100) = neither"
proof -
  have general: "mean_intensity (crop f r) = Some m \<longrightarrow>
      (classify f r = Some black) = (m \<le> 5)
      \<and> (classify f r = Some white) = (250 \<le> m)
      \<and> (classify f r = Some neither) = (5 < m \<and> m < 250)"
    by (auto simp: classify_def classify_mean_def)
  have points: "classify_mean 5 = black" "classify_mean 250 = white" "classify_mean 128 = neither"
    "classify_mean (1 / 100) = black" "classify_mean (25499 / 100) = white"
    "classify_mean (601 / 100) = neither" "classify_mean (23895 / 100) = neither"
    by (simp_all add: classify_mean_def)
  have uniform: "0 < w \<and> 0 < h \<longrightarrow>
        classify (uniform_frame w h 5) \<lparr>rect_x = 0, rect_y = 0, rect_width = w, rect_height = h\<rparr> = Some black
      \<and> classify (uniform_frame w h 250) \<lparr>rect_x = 0, rect_y = 0, rect_width = w, rect_height = h\<rparr> = Some white
      \<and> classify (uniform_frame w h 128) \<lparr>rect_x = 0, rect_y = 0, rect_width = w, rect_height = h\<rparr> = Some neither"
    by (simp add: classify_uniform classify_mean_def)
  show ?thesis using general points uniform by blast
qed

text \<open>
  A 6 by 4 frame of intensity 5 with a 3 by 2 gameplay rectangle inside it: the mean over
  the crop is 5 and the frame is black; the same frame at intensity 6 is neither.
\<close>

theorem classify_thresholds_witness:
  "mean_intensity (crop (uniform_frame 6 4 5) \<lparr>rect_x = 2, rect_y = 1, rect_width = 3, rect_height = 2\<rparr>) = Some 5
   \<and> classify (uniform_frame 6 4 5) \<lparr>rect_x = 2, rect_y = 1, rect_width = 3, rect_height = 2\<rparr> = Some black
   \<and> mean_intensity (crop (uniform_frame 6 4 6) \<lparr>rect_x = 2, rect_y = 1, rect_width = 3, rect_height = 2\<rparr>) = Some 6
   \<and> classify (uniform_frame 6 4 6) \<lparr>rect_x = 2, rect_y = 1, rect_width = 3, rect_height = 2\<rparr> = Some neither
   \<and> (0 :: nat) < 6 \<and> (0 :: nat) < 4
   \<and> classify (uniform_frame 6 4 250) \<lparr>rect_x = 0, rect_y = 0, rect_width = 6, rect_height = 4\<rparr> = Some white"
proof -
  let ?r = "\<lparr>rect_x = 2, rect_y = 1, rect_width = 3, rect_height = 2\<rparr>"
  have m5: "mean_intensity (crop (uniform_frame 6 4 5) ?r) = Some 5"
    by (simp add: mean_intensity_def crop_def uniform_frame_def concat_uniform sum_list_replicate)
  have m6: "mean_intensity (crop (uniform_frame 6 4 6) ?r) = Some 6"
    by (simp add: mean_intensity_def crop_def uniform_frame_def concat_uniform sum_list_replicate)
  have a: "classify (uniform_frame 6 4 5) ?r = Some black"
    using classify_thresholds[of "uniform_frame 6 4 5" ?r 5 6 4] m5 by simp
  have b: "classify (uniform_frame 6 4 6) ?r = Some neither"
    using classify_thresholds[of "uniform_frame 6 4 6" ?r 6 6 4] m6 by simp
  have c: "classify (uniform_frame 6 4 250) \<lparr>rect_x = 0, rect_y = 0, rect_width = 6, rect_height = 4\<rparr> = Some white"
    using classify_thresholds[of "uniform_frame 6 4 5" ?r 5 6 4] by simp
  show ?thesis using m5 m6 a b c by simp
qed

subsection \<open>Label application\<close>


























lemma nearest_doubles:
  "round_double (21 / 40) = Num (4728779608739021 / 9007199254740992)"
  "round_double (7 / 100) = Num (1261007895663739 / 18014398509481984)"
  "round_double (41 / 40) = Num (4616189618054758 / 4503599627370496)"
  by code_simp+


lemma exact_target:
  "(4728779608739021 / 9007199254740992 + 1 / 2) * 254016000000 \<ge> (260366400000 :: rat)"
  "(8531686195199999 / 32768 :: rat) < 260366400000"
  by simp_all

lemma rounding_moves_target:
  "covers clip_b (Num 260366400000)" "\<not> covers clip_a (Num 260366400000)"
  "covers clip_a (Num (8531686195199999 / 32768))" "\<not> covers clip_b (Num (8531686195199999 / 32768))"
  by (simp_all add: covers_def clip_a_def clip_b_def js_le_def js_gt_def)




text \<open>
  A label of the table, a name the table only inherits, and a name it does not have.
\<close>

lemma export_shortcuts:
  "map exported_shortcut
     (exportForPython (\<lambda>name. name = ''toString'')
        [\<lparr>start_seconds = Num 1, label = ''Rival'', trainer = ''Rival''\<rparr>,
         \<lparr>start_seconds = Num 2, label = ''toString'', trainer = ''Unknown''\<rparr>,
         \<lparr>start_seconds = Num 3, label = ''Teal'', trainer = ''Unknown''\<rparr>])
     = [Text ''^+1'', Member ''toString'', Text ''^+8'']"
  by (simp add: exportForPython_def LABEL_SHORTCUTS_def)




end
